theory Spec2Isabelle
  imports Main "HOL-Library.Word"
begin

section \<open>The view compositor of gocui: data model\<close>

text \<open>
  The Go package keeps every view behind a pointer: \<^verbatim>\<open>Gui.views\<close> is a slice of
  \<^verbatim>\<open>Viewer\<close> interface values and \<^verbatim>\<open>Gui.currentView\<close> is one more such value, which
  may alias an element of the slice. The model therefore has an explicit store of view
  objects, addressed by natural numbers, and state passing for every method of \<^verbatim>\<open>*Gui\<close>.
  Go's \<^verbatim>\<open>int\<close> coordinates are modelled by \<open>int\<close>; the one place of the modelled code
  that computes with them (\<^verbatim>\<open>onKey\<close>) wraps the result to 64 bits explicitly.
\<close>

subsection \<open>Errors\<close>

text \<open>
  \<^verbatim>\<open>ErrQuit\<close> and \<^verbatim>\<open>ErrUnknownView\<close> are the two package-level sentinel values; every
  other error of the file is made on the spot by \<^verbatim>\<open>errors.New(msg)\<close>. A nil error is
  \<open>None :: error option\<close>.
\<close>

datatype error = ErrQuit | ErrUnknownView | errors_New string

type_synonym Attribute = "16 word"
type_synonym Key = "16 word"
type_synonym rune = "32 word"
type_synonym Modifier = "8 word"
type_synonym OutputMode = int

subsection \<open>Views\<close>

text \<open>
  Modelled from the spec: the \<^verbatim>\<open>View\<close> struct behind the \<^verbatim>\<open>Viewer\<close> interface (its file is
  not among the sources; only the interface \<^verbatim>\<open>Viewer\<close> is). The record holds the mutable
  fields that the compositor reads or writes through the interface: the bounds
  \<open>(x0, y0, x1, y1)\<close>, the cursor, the invalidate flag, the two colour pairs, and the
  editing configuration (an editor is named by a number, \<open>None\<close> is a nil editor).
\<close>

record View =
  bx0 :: int
  by0 :: int
  bx1 :: int
  by1 :: int
  cx :: int
  cy :: int
  tainted :: bool
  bgColor :: Attribute
  fgColor :: Attribute
  selBgColor :: Attribute
  selFgColor :: Attribute
  editable :: bool
  editor :: "nat option"

text \<open>
  A \<^verbatim>\<open>Viewer\<close> value is a pointer to a view object. The name of a view is fixed when the
  view is made (the interface has \<^verbatim>\<open>Name()\<close> and no way to set it), so the model carries it in
  the reference, next to the address; everything that can change lives in the store.
  A nil \<^verbatim>\<open>Viewer\<close> is \<open>None :: Viewer option\<close>.
\<close>

record Viewer =
  ptr :: nat
  vname :: string

text \<open>Modelled from the spec: \<^verbatim>\<open>Name()\<close> of the missing \<^verbatim>\<open>View\<close> implementation.\<close>

definition Name :: "Viewer \<Rightarrow> string" where
  "Name v = vname v"

text \<open>Modelled from the spec: \<^verbatim>\<open>GetBounds()\<close>, declared in the interface as
  \<^verbatim>\<open>GetBounds() (x0, y0, x1, y1 int)\<close>.\<close>

definition GetBounds :: "View \<Rightarrow> int \<times> int \<times> int \<times> int" where
  "GetBounds w = (bx0 w, by0 w, bx1 w, by1 w)"

text \<open>Modelled from the spec: \<^verbatim>\<open>SetBounds(x0, y0, x1, y1)\<close> (update the bounds in place).\<close>

definition SetBounds :: "View \<Rightarrow> int \<Rightarrow> int \<Rightarrow> int \<Rightarrow> int \<Rightarrow> View" where
  "SetBounds w x0 y0 x1 y1 = w\<lparr>bx0 := x0, by0 := y0, bx1 := x1, by1 := y1\<rparr>"

text \<open>Modelled from the spec: \<^verbatim>\<open>Invalidate()\<close> sets the dirty flag that forces a full
  re-wrap and redraw.\<close>

definition Invalidate :: "View \<Rightarrow> View" where
  "Invalidate w = w\<lparr>tainted := True\<rparr>"

text \<open>Modelled from the spec: \<^verbatim>\<open>SetBgFgColor(bg, fg)\<close> and \<^verbatim>\<open>SetSelBgFgColor(bg, fg)\<close>.\<close>

definition SetBgFgColor :: "View \<Rightarrow> Attribute \<Rightarrow> Attribute \<Rightarrow> View" where
  "SetBgFgColor w bg fg = w\<lparr>bgColor := bg, fgColor := fg\<rparr>"

definition SetSelBgFgColor :: "View \<Rightarrow> Attribute \<Rightarrow> Attribute \<Rightarrow> View" where
  "SetSelBgFgColor w bg fg = w\<lparr>selBgColor := bg, selFgColor := fg\<rparr>"

text \<open>Modelled from the spec: \<^verbatim>\<open>IsEditable()\<close> and \<^verbatim>\<open>GetEditor()\<close>.\<close>

definition IsEditable :: "View \<Rightarrow> bool" where
  "IsEditable w = editable w"

definition GetEditor :: "View \<Rightarrow> nat option" where
  "GetEditor w = editor w"

text \<open>Modelled from the spec: \<^verbatim>\<open>newView(name, x0, y0, x1, y1, mode)\<close>, the constructor of the
  missing \<^verbatim>\<open>View\<close> implementation. The new object has the bounds it is made with; the
  spec gives no other initial value, and the fields it leaves open get Go's zero
  values here (the name goes into the reference, see \<open>Viewer\<close>).\<close>

definition newView :: "string \<Rightarrow> int \<Rightarrow> int \<Rightarrow> int \<Rightarrow> int \<Rightarrow> OutputMode \<Rightarrow> View" where
  "newView name x0 y0 x1 y1 mode =
     \<lparr>bx0 = x0, by0 = y0, bx1 = x1, by1 = y1, cx = 0, cy = 0, tainted = False,
      bgColor = 0, fgColor = 0, selBgColor = 0, selFgColor = 0,
      editable = False, editor = None\<rparr>"

subsection \<open>Keybindings and events\<close>

text \<open>
  The fields of \<^verbatim>\<open>keybinding\<close> are the ones the source reads (\<^verbatim>\<open>kb.viewName\<close>, \<^verbatim>\<open>kb.key\<close>,
  \<^verbatim>\<open>kb.ch\<close>, \<^verbatim>\<open>kb.mod\<close>, \<^verbatim>\<open>kb.handler\<close>). A handler is a Go closure
  \<^verbatim>\<open>func(Guier, Viewer) error\<close>; the model names it by a number and looks its effect up in
  a table that is passed to the dispatch functions. \<open>None\<close> is a nil handler.
\<close>

record keybinding =
  viewName :: string
  key :: Key
  ch :: rune
  modifier :: Modifier
  handler :: "nat option"

datatype EventType =
  EventKey | EventResize | EventMouse | EventError | EventInterrupt | EventRaw | EventNone

record Event =
  Type :: EventType
  Mod :: Modifier
  Key :: Key
  Ch :: rune
  Width :: int
  Height :: int
  Err :: "error option"
  MouseX :: int
  MouseY :: int

subsection \<open>The Gui\<close>

text \<open>
  The fields of \<^verbatim>\<open>Gui\<close>, with three additions of the model: \<open>store\<close> maps the address of
  a view object to its current contents, \<open>nextPtr\<close> is the first address never handed
  out, and \<open>tbSends\<close> lists the events whose send on the channel \<^verbatim>\<open>tbEvents\<close> has been
  started by a goroutine of the Gui (the channel itself belongs to the run loop).
  A manager is named by a number, like a handler.
\<close>

record Gui =
  store :: "nat \<Rightarrow> View"
  nextPtr :: nat
  tbSends :: "Event list"
  views :: "Viewer list"
  currentView :: "Viewer option"
  managers :: "nat list"
  keybindings :: "keybinding list"
  maxX :: int
  maxY :: int
  outputMode :: OutputMode
  BgColor :: Attribute
  FgColor :: Attribute
  SelBgColor :: Attribute
  SelFgColor :: Attribute
  Highlight :: bool
  Cursor :: bool
  Mouse :: bool
  InputEsc :: bool
  ASCII :: bool

text \<open>
  \<^verbatim>\<open>NewGui\<close>: \<open>init\<close> is the result of \<^verbatim>\<open>termbox.Init()\<close> and \<open>sz\<close> that of
  \<^verbatim>\<open>termbox.Size()\<close>. The constant \<^verbatim>\<open>ColorDefault\<close> is declared in a file that is not
  among the sources, so it is a parameter. Every field that \<^verbatim>\<open>NewGui\<close> does not assign
  has Go's zero value. No view object exists yet: the store holds a blank object at
  every address, and the first address to hand out is 0.
\<close>

definition NewGui ::
  "Attribute \<Rightarrow> error option \<Rightarrow> OutputMode \<Rightarrow> int \<times> int \<Rightarrow> error + Gui" where
  "NewGui ColorDefault init mode sz =
     (case init of
        Some err \<Rightarrow> Inl err
      | None \<Rightarrow>
          Inr \<lparr>store = (\<lambda>_. newView [] 0 0 0 0 mode), nextPtr = 0, tbSends = [],
               views = [], currentView = None, managers = [], keybindings = [],
               maxX = fst sz, maxY = snd sz, outputMode = mode,
               BgColor = ColorDefault, FgColor = ColorDefault,
               SelBgColor = ColorDefault, SelFgColor = ColorDefault,
               Highlight = False, Cursor = False, Mouse = False, InputEsc = False,
               ASCII = False\<rparr>)"

text \<open>A method call \<^verbatim>\<open>v.m(...)\<close> that changes the object behind \<open>v\<close>.\<close>

definition call :: "Gui \<Rightarrow> Viewer \<Rightarrow> (View \<Rightarrow> View) \<Rightarrow> Gui" where
  "call g v m = g\<lparr>store := (store g)(ptr v := m (store g (ptr v)))\<rparr>"

text \<open>The object behind a reference.\<close>

definition deref :: "Gui \<Rightarrow> Viewer \<Rightarrow> View" where
  "deref g v = store g (ptr v)"

section \<open>View stack operations\<close>

text \<open>
  Six methods run the same loop, \<^verbatim>\<open>for i, v := range g.views { if v.Name() == name ...\<close>,
  and act on the first hit. \<open>rangeViews\<close> is that loop: it returns the slice before the
  hit (\<^verbatim>\<open>g.views[:i]\<close>), the hit, and the slice after it (\<^verbatim>\<open>g.views[i+1:]\<close>), or \<open>None\<close>
  when the loop falls through.
\<close>

fun rangeViews :: "string \<Rightarrow> Viewer list \<Rightarrow> (Viewer list \<times> Viewer \<times> Viewer list) option" where
  "rangeViews name [] = None"
| "rangeViews name (v # vs) =
     (if Name v = name then Some ([], v, vs)
      else (case rangeViews name vs of
              None \<Rightarrow> None
            | Some (pre, w, post) \<Rightarrow> Some (v # pre, w, post)))"

text \<open>The method \<^verbatim>\<open>View(name)\<close>; the model calls it \<open>View_by_name\<close>, since \<open>View\<close> is
  the record of a view object here.\<close>

definition View_by_name :: "Gui \<Rightarrow> string \<Rightarrow> error + Viewer" where
  "View_by_name g name =
     (case rangeViews name (views g) of
        Some (pre, v, post) \<Rightarrow> Inr v
      | None \<Rightarrow> Inl ErrUnknownView)"

text \<open>
  \<^verbatim>\<open>SetView\<close> returns a pair (view, error) in which both parts can be non-nil, so the
  result is a pair of options, with the Gui after the call.
\<close>

definition SetView ::
  "Gui \<Rightarrow> string \<Rightarrow> int \<Rightarrow> int \<Rightarrow> int \<Rightarrow> int \<Rightarrow> (Viewer option \<times> error option) \<times> Gui" where
  "SetView g name x0 y0 x1 y1 =
     (if x0 \<ge> x1 \<or> y0 \<ge> y1 then ((None, Some (errors_New ''invalid dimensions'')), g)
      else if name = [] then ((None, Some (errors_New ''invalid name'')), g)
      else (case View_by_name g name of
              Inr v \<Rightarrow>
                (let g1 = call g v (\<lambda>w. SetBounds w x0 y0 x1 y1);
                     g2 = call g1 v Invalidate
                 in ((Some v, None), g2))
            | Inl err \<Rightarrow>
                (let v = \<lparr>ptr = nextPtr g, vname = name\<rparr>;
                     w = newView name x0 y0 x1 y1 (outputMode g);
                     w1 = SetBgFgColor w (BgColor g) (FgColor g);
                     w2 = SetSelBgFgColor w1 (SelBgColor g) (SelFgColor g)
                 in ((Some v, Some ErrUnknownView),
                     g\<lparr>store := (store g)(nextPtr g := w2),
                       nextPtr := nextPtr g + 1,
                       views := views g @ [v]\<rparr>))))"

definition SetViewOnTop :: "Gui \<Rightarrow> string \<Rightarrow> (error + Viewer) \<times> Gui" where
  "SetViewOnTop g name =
     (case rangeViews name (views g) of
        Some (pre, v, post) \<Rightarrow> (Inr v, g\<lparr>views := (pre @ post) @ [v]\<rparr>)
      | None \<Rightarrow> (Inl ErrUnknownView, g))"

definition SetViewOnBottom :: "Gui \<Rightarrow> string \<Rightarrow> (error + Viewer) \<times> Gui" where
  "SetViewOnBottom g name =
     (case rangeViews name (views g) of
        Some (pre, v, post) \<Rightarrow> (Inr v, g\<lparr>views := [v] @ (pre @ post)\<rparr>)
      | None \<Rightarrow> (Inl ErrUnknownView, g))"

definition Views :: "Gui \<Rightarrow> Viewer list" where
  "Views g = views g"

text \<open>
  \<^verbatim>\<open>ViewByPosition\<close> walks the slice from its last element down to its first
  (\<^verbatim>\<open>for i := len(g.views); i > 0; i--\<close>, reading \<^verbatim>\<open>g.views[i-1]\<close>); the loop function is
  given the reversed slice.
\<close>

fun ViewByPosition_loop :: "(nat \<Rightarrow> View) \<Rightarrow> Viewer list \<Rightarrow> int \<Rightarrow> int \<Rightarrow> error + Viewer" where
  "ViewByPosition_loop st [] x y = Inl ErrUnknownView"
| "ViewByPosition_loop st (v # vs) x y =
     (case GetBounds (st (ptr v)) of
        (x0, y0, x1, y1) \<Rightarrow>
          if x > x0 \<and> x < x1 \<and> y > y0 \<and> y < y1 then Inr v
          else ViewByPosition_loop st vs x y)"

definition ViewByPosition :: "Gui \<Rightarrow> int \<Rightarrow> int \<Rightarrow> error + Viewer" where
  "ViewByPosition g x y = ViewByPosition_loop (store g) (rev (views g)) x y"

definition ViewPosition :: "Gui \<Rightarrow> string \<Rightarrow> error + (int \<times> int \<times> int \<times> int)" where
  "ViewPosition g name =
     (case rangeViews name (views g) of
        Some (pre, v, post) \<Rightarrow> Inr (GetBounds (deref g v))
      | None \<Rightarrow> Inl ErrUnknownView)"

definition DeleteView :: "Gui \<Rightarrow> string \<Rightarrow> error option \<times> Gui" where
  "DeleteView g name =
     (case rangeViews name (views g) of
        Some (pre, v, post) \<Rightarrow> (None, g\<lparr>views := pre @ post\<rparr>)
      | None \<Rightarrow> (Some ErrUnknownView, g))"

definition SetCurrentView :: "Gui \<Rightarrow> string \<Rightarrow> (error + Viewer) \<times> Gui" where
  "SetCurrentView g name =
     (case rangeViews name (views g) of
        Some (pre, v, post) \<Rightarrow> (Inr v, g\<lparr>currentView := Some v\<rparr>)
      | None \<Rightarrow> (Inl ErrUnknownView, g))"

definition CurrentView :: "Gui \<Rightarrow> Viewer option" where
  "CurrentView g = currentView g"

text \<open>
  \<^verbatim>\<open>SetManager\<close> assigns four fields and starts a goroutine that sends a resize event
  (an \<^verbatim>\<open>Event\<close> with only \<^verbatim>\<open>Type\<close> set) on \<^verbatim>\<open>tbEvents\<close>. A nil slice is the empty list.
\<close>

definition resizeEvent :: Event where
  "resizeEvent =
     \<lparr>Type = EventResize, Mod = 0, Key = 0, Ch = 0, Width = 0, Height = 0, Err = None,
      MouseX = 0, MouseY = 0\<rparr>"

definition SetManager :: "Gui \<Rightarrow> nat list \<Rightarrow> Gui" where
  "SetManager g ms =
     g\<lparr>managers := ms, currentView := None, views := [], keybindings := [],
       tbSends := tbSends g @ [resizeEvent]\<rparr>"

section \<open>Registering keybindings\<close>

text \<open>
  The \<^verbatim>\<open>key interface{}\<close> argument of \<^verbatim>\<open>SetKeybinding\<close> is a value of any type; \<^verbatim>\<open>getKey\<close>
  switches on its dynamic type, which is a \<^verbatim>\<open>Key\<close>, a \<^verbatim>\<open>rune\<close>, or anything else.
\<close>

datatype keyarg = KeyArg Key | RuneArg rune | OtherArg

definition getKey :: "keyarg \<Rightarrow> error + (Key \<times> rune)" where
  "getKey k =
     (case k of
        KeyArg t \<Rightarrow> Inr (t, 0)
      | RuneArg t \<Rightarrow> Inr (0, t)
      | OtherArg \<Rightarrow> Inl (errors_New ''unknown type''))"

text \<open>Modelled from the spec: \<^verbatim>\<open>newKeybinding\<close> of the missing keybinding file, which
  makes the tuple (view scope, trigger, modifier, handler).\<close>

definition newKeybinding :: "string \<Rightarrow> Key \<Rightarrow> rune \<Rightarrow> Modifier \<Rightarrow> nat option \<Rightarrow> keybinding" where
  "newKeybinding viewname k c m h =
     \<lparr>viewName = viewname, key = k, ch = c, modifier = m, handler = h\<rparr>"

definition SetKeybinding ::
  "Gui \<Rightarrow> string \<Rightarrow> keyarg \<Rightarrow> Modifier \<Rightarrow> nat option \<Rightarrow> error option \<times> Gui" where
  "SetKeybinding g viewname k m h =
     (case getKey k of
        Inl err \<Rightarrow> (Some err, g)
      | Inr (k', c) \<Rightarrow>
          (None, g\<lparr>keybindings := keybindings g @ [newKeybinding viewname k' c m h]\<rparr>))"

section \<open>Keybinding dispatch\<close>

text \<open>Modelled from the spec: \<^verbatim>\<open>matchKeypress\<close> of the missing keybinding file; a binding
  matches when its (key-or-rune, modifier) equals the event's.\<close>

definition matchKeypress :: "keybinding \<Rightarrow> Key \<Rightarrow> rune \<Rightarrow> Modifier \<Rightarrow> bool" where
  "matchKeypress kb k c m = (key kb = k \<and> ch kb = c \<and> modifier kb = m)"

text \<open>Modelled from the spec: \<^verbatim>\<open>matchView\<close> of the missing keybinding file; an empty
  view scope matches every target, a nil view too, and a non-empty one matches only a
  view of that name.\<close>

definition matchView :: "keybinding \<Rightarrow> Viewer option \<Rightarrow> bool" where
  "matchView kb v =
     (if viewName kb = [] then True
      else (case v of None \<Rightarrow> False | Some w \<Rightarrow> viewName kb = Name w))"

text \<open>
  The code outside the sources that the compositor calls back: the cursor setter of the
  missing \<^verbatim>\<open>View\<close> implementation (it may refuse a point), the keybinding handlers, the
  editors, the managers' \<^verbatim>\<open>Layout\<close>, the functions queued by \<^verbatim>\<open>Update\<close>, and the drawing
  of one view on the terminal. Each is a function of the state it may change; a callback
  that gets the Gui returns the Gui it leaves behind.
\<close>

record Env =
  View_SetCursor :: "View \<Rightarrow> int \<Rightarrow> int \<Rightarrow> error option \<times> View"
  handlers :: "nat \<Rightarrow> Gui \<Rightarrow> Viewer option \<Rightarrow> error option \<times> Gui"
  editors :: "nat \<Rightarrow> Gui \<Rightarrow> Viewer \<Rightarrow> Key \<Rightarrow> rune \<Rightarrow> Modifier \<Rightarrow> Gui"
  layouts :: "nat \<Rightarrow> Gui \<Rightarrow> error option \<times> Gui"
  userFuncs :: "nat \<Rightarrow> Gui \<Rightarrow> error option \<times> Gui"
  drawView :: "Gui \<Rightarrow> Viewer \<Rightarrow> error option \<times> Gui"

text \<open>
  The loop of \<^verbatim>\<open>execKeybindings\<close> ranges over the slice \<^verbatim>\<open>g.keybindings\<close> as it is when the
  loop starts (Go evaluates the range expression once), while the Gui is handed from one
  handler to the next. Slices are values here: a handler that edits the backing array of
  that very slice while the loop runs is outside the model.
\<close>

fun execKeybindings_loop ::
  "Env \<Rightarrow> keybinding list \<Rightarrow> Viewer option \<Rightarrow> Event \<Rightarrow> bool \<Rightarrow> Gui \<Rightarrow> (bool \<times> error option) \<times> Gui" where
  "execKeybindings_loop env [] v ev matched g = ((matched, None), g)"
| "execKeybindings_loop env (kb # kbs) v ev matched g =
     (case handler kb of
        None \<Rightarrow> execKeybindings_loop env kbs v ev matched g
      | Some h \<Rightarrow>
          if matchKeypress kb (Key ev) (Ch ev) (Mod ev) \<and> matchView kb v then
            (case handlers env h g v of
               (Some err, g') \<Rightarrow> ((False, Some err), g')
             | (None, g') \<Rightarrow> execKeybindings_loop env kbs v ev True g')
          else execKeybindings_loop env kbs v ev matched g)"

definition execKeybindings ::
  "Env \<Rightarrow> Gui \<Rightarrow> Viewer option \<Rightarrow> Event \<Rightarrow> (bool \<times> error option) \<times> Gui" where
  "execKeybindings env g v ev = execKeybindings_loop env (keybindings g) v ev False g"

section \<open>Key and mouse handling\<close>

text \<open>Go's \<^verbatim>\<open>int\<close> subtraction, wrapping to 64 bits in two's complement.\<close>

definition int_sub :: "int \<Rightarrow> int \<Rightarrow> int" where
  "int_sub a b = (a - b + 2 ^ 63) mod 2 ^ 64 - 2 ^ 63"

text \<open>
  In the mouse branch the source binds the results of \<^verbatim>\<open>GetBounds()\<close> with
  \<^verbatim>\<open>x0, _, y0, _ := v.GetBounds()\<close>: the variable it calls \<^verbatim>\<open>y0\<close> receives the third
  result. The model binds the four results in the same positions.
\<close>

definition onKey :: "Env \<Rightarrow> Gui \<Rightarrow> Event \<Rightarrow> error option \<times> Gui" where
  "onKey env g ev =
     (case Type ev of
        EventKey \<Rightarrow>
          (case execKeybindings env g (currentView g) ev of
             ((matched, Some err), g') \<Rightarrow> (Some err, g')
           | ((matched, None), g') \<Rightarrow>
               if matched then (None, g')
               else (case currentView g' of
                       None \<Rightarrow> (None, g')
                     | Some cv \<Rightarrow>
                         if IsEditable (deref g' cv) then
                           (case GetEditor (deref g' cv) of
                              None \<Rightarrow> (None, g')
                            | Some e \<Rightarrow> (None, editors env e g' cv (Key ev) (Ch ev) (Mod ev)))
                         else (None, g')))
      | EventMouse \<Rightarrow>
          (let mx = MouseX ev; my = MouseY ev in
           case ViewByPosition g mx my of
             Inl err \<Rightarrow> (None, g)
           | Inr v \<Rightarrow>
               (case GetBounds (deref g v) of
                  (x0, _, y0, _) \<Rightarrow>
                    (case View_SetCursor env (deref g v) (int_sub (int_sub mx x0) 1)
                                                   (int_sub (int_sub my y0) 1) of
                       (Some err, w) \<Rightarrow> (Some err, call g v (\<lambda>_. w))
                     | (None, w) \<Rightarrow>
                         (case execKeybindings env (call g v (\<lambda>_. w)) (Some v) ev of
                            ((_, Some err), g') \<Rightarrow> (Some err, g')
                          | ((_, None), g') \<Rightarrow> (None, g')))))
      | _ \<Rightarrow> (None, g))"

section \<open>The run loop\<close>

definition handleEvent :: "Env \<Rightarrow> Gui \<Rightarrow> Event \<Rightarrow> error option \<times> Gui" where
  "handleEvent env g ev =
     (case Type ev of
        EventKey \<Rightarrow> onKey env g ev
      | EventMouse \<Rightarrow> onKey env g ev
      | EventError \<Rightarrow> (Err ev, g)
      | _ \<Rightarrow> (None, g))"

text \<open>
  \<^verbatim>\<open>flush\<close> starts by comparing the terminal's size (\<^verbatim>\<open>termbox.Size()\<close>, an input of the
  model) with the cached one; \<open>flush_size\<close> is that first part of the function, up to the
  assignment of \<^verbatim>\<open>g.maxX, g.maxY\<close>.
\<close>

fun invalidate_views :: "Viewer list \<Rightarrow> Gui \<Rightarrow> Gui" where
  "invalidate_views [] g = g"
| "invalidate_views (v # vs) g = invalidate_views vs (call g v Invalidate)"

definition flush_size :: "int \<times> int \<Rightarrow> Gui \<Rightarrow> Gui" where
  "flush_size sz g =
     (case sz of
        (maxX', maxY') \<Rightarrow>
          (let g1 = (if maxX' \<noteq> maxX g \<or> maxY' \<noteq> maxY g then invalidate_views (views g) g
                     else g)
           in g1\<lparr>maxX := maxX', maxY := maxY'\<rparr>))"

fun layout_loop :: "Env \<Rightarrow> nat list \<Rightarrow> Gui \<Rightarrow> error option \<times> Gui" where
  "layout_loop env [] g = (None, g)"
| "layout_loop env (m # ms) g =
     (case layouts env m g of
        (Some err, g') \<Rightarrow> (Some err, g')
      | (None, g') \<Rightarrow> layout_loop env ms g')"

fun draw_loop :: "Env \<Rightarrow> Viewer list \<Rightarrow> Gui \<Rightarrow> error option \<times> Gui" where
  "draw_loop env [] g = (None, g)"
| "draw_loop env (v # vs) g =
     (case drawView env g v of
        (Some err, g') \<Rightarrow> (Some err, g')
      | (None, g') \<Rightarrow> draw_loop env vs g')"

text \<open>
  The rest of \<^verbatim>\<open>flush\<close>: every manager's \<^verbatim>\<open>Layout\<close>, then, for every view of the slice
  as it is after layout, the frame and the content (\<open>drawView\<close> stands for the body of
  that loop, which writes to the terminal).
\<close>

definition flush :: "Env \<Rightarrow> int \<times> int \<Rightarrow> Gui \<Rightarrow> error option \<times> Gui" where
  "flush env sz g =
     (let g1 = flush_size sz g in
      case layout_loop env (managers g1) g1 of
        (Some err, g2) \<Rightarrow> (Some err, g2)
      | (None, g2) \<Rightarrow> draw_loop env (views g2) g2)"

text \<open>
  One receive of a \<^verbatim>\<open>select\<close>: an event from \<^verbatim>\<open>tbEvents\<close> or a function from
  \<^verbatim>\<open>userEvents\<close> (named by a number). What the channels deliver, and when, is decided
  outside the Gui, so a run of \<^verbatim>\<open>MainLoop\<close> is modelled against a script: for every turn of
  its \<^verbatim>\<open>for\<close> loop the input that the blocking \<^verbatim>\<open>select\<close> receives, the inputs that
  \<^verbatim>\<open>consumeevents\<close> finds ready after it, and the terminal size that \<^verbatim>\<open>flush\<close> reads.
\<close>

datatype input = TbEvent Event | UserEvent nat

definition dispatch :: "Env \<Rightarrow> Gui \<Rightarrow> input \<Rightarrow> error option \<times> Gui" where
  "dispatch env g i =
     (case i of
        TbEvent ev \<Rightarrow> handleEvent env g ev
      | UserEvent f \<Rightarrow> userFuncs env f g)"

fun consumeevents :: "Env \<Rightarrow> input list \<Rightarrow> Gui \<Rightarrow> error option \<times> Gui" where
  "consumeevents env [] g = (None, g)"
| "consumeevents env (i # is) g =
     (case dispatch env g i of
        (Some err, g') \<Rightarrow> (Some err, g')
      | (None, g') \<Rightarrow> consumeevents env is g')"

text \<open>
  The \<^verbatim>\<open>for\<close> loop of \<^verbatim>\<open>MainLoop\<close> over a script. The loop has no exit but an error, so
  the result \<open>None\<close> means that the script is used up and the loop is blocked in its
  \<^verbatim>\<open>select\<close>; \<open>Some err\<close> is the error that \<^verbatim>\<open>MainLoop\<close> returns. The goroutine that
  polls the terminal and the call of \<^verbatim>\<open>termbox.SetInputMode\<close> at the head of \<^verbatim>\<open>MainLoop\<close>
  act on the terminal and the channel only; the script stands for what they deliver.
\<close>

fun MainLoop_turns ::
  "Env \<Rightarrow> (input \<times> input list \<times> (int \<times> int)) list \<Rightarrow> Gui \<Rightarrow> error option \<times> Gui" where
  "MainLoop_turns env [] g = (None, g)"
| "MainLoop_turns env ((i, ready, sz) # turns) g =
     (case dispatch env g i of
        (Some err, g1) \<Rightarrow> (Some err, g1)
      | (None, g1) \<Rightarrow>
          (case consumeevents env ready g1 of
             (Some err, g2) \<Rightarrow> (Some err, g2)
           | (None, g2) \<Rightarrow>
               (case flush env sz g2 of
                  (Some err, g3) \<Rightarrow> (Some err, g3)
                | (None, g3) \<Rightarrow> MainLoop_turns env turns g3)))"

definition MainLoop ::
  "Env \<Rightarrow> int \<times> int \<Rightarrow> (input \<times> input list \<times> (int \<times> int)) list \<Rightarrow> Gui \<Rightarrow> error option \<times> Gui" where
  "MainLoop env sz0 turns g =
     (case flush env sz0 g of
        (Some err, g') \<Rightarrow> (Some err, g')
      | (None, g') \<Rightarrow> MainLoop_turns env turns g')"

section \<open>Predicates of the specification\<close>

text \<open>
  The spec's hit test: a point is inside a view if it lies strictly between the edges
  of its bounds. (\<^verbatim>\<open>ViewByPosition\<close> above is written from the source; the theorems compare
  the two.)
\<close>

definition strictly_inside :: "View \<Rightarrow> int \<Rightarrow> int \<Rightarrow> bool" where
  "strictly_inside w x y = (bx0 w < x \<and> x < bx1 w \<and> by0 w < y \<and> y < by1 w)"

text \<open>
  The spec's matching rule: a binding matches if its (key-or-rune, modifier) equals the
  event's, and its view scope is empty or equals the target view's name.
\<close>

definition matches :: "keybinding \<Rightarrow> Viewer option \<Rightarrow> Event \<Rightarrow> bool" where
  "matches kb v ev =
     ((key kb, ch kb, modifier kb) = (Key ev, Ch ev, Mod ev)
      \<and> (viewName kb = [] \<or> (case v of None \<Rightarrow> False | Some w \<Rightarrow> viewName kb = Name w)))"

text \<open>
  The handlers of the matching bindings that have one, in registration order, and the
  spec's dispatch over them: every handler is invoked, in order; if a handler fails,
  dispatch stops and the failure propagates.
\<close>

definition matching_handlers :: "Gui \<Rightarrow> Viewer option \<Rightarrow> Event \<Rightarrow> nat list" where
  "matching_handlers g v ev =
     List.map_filter (\<lambda>kb. if matches kb v ev then handler kb else None) (keybindings g)"

fun run_handlers :: "Env \<Rightarrow> nat list \<Rightarrow> Viewer option \<Rightarrow> Gui \<Rightarrow> error option \<times> Gui" where
  "run_handlers env [] v g = (None, g)"
| "run_handlers env (h # hs) v g =
     (case handlers env h g v of
        (Some err, g') \<Rightarrow> (Some err, g')
      | (None, g') \<Rightarrow> run_handlers env hs v g')"

text \<open>The invariant of the data model that view names are unique across \<open>views\<close>.\<close>

definition unique_names :: "Gui \<Rightarrow> bool" where
  "unique_names g = distinct (map Name (views g))"

section \<open>Example states\<close>

text \<open>
  The Gui that \<^verbatim>\<open>NewGui(OutputNormal)\<close> makes on a terminal of 80 by 24 cells (with 0
  for the default colour, and the output mode \<^verbatim>\<open>OutputNormal\<close> written 0), and the
  Guis after \<^verbatim>\<open>SetView("a", 0, 0, 20, 10)\<close> and then \<^verbatim>\<open>SetView("b", 10, 5, 30, 15)\<close>:
  two overlapping views, \<open>b\<close> on top. They are the concrete inputs of the examples below.
\<close>

definition exampleGui :: Gui where
  "exampleGui =
     \<lparr>store = (\<lambda>_. newView [] 0 0 0 0 0), nextPtr = 0, tbSends = [],
      views = [], currentView = None, managers = [], keybindings = [],
      maxX = 80, maxY = 24, outputMode = 0,
      BgColor = 0, FgColor = 0, SelBgColor = 0, SelFgColor = 0,
      Highlight = False, Cursor = False, Mouse = False, InputEsc = False,
      ASCII = False\<rparr>"

definition viewA :: Viewer where
  "viewA = \<lparr>ptr = 0, vname = ''a''\<rparr>"

definition viewB :: Viewer where
  "viewB = \<lparr>ptr = 1, vname = ''b''\<rparr>"

definition guiA :: Gui where
  "guiA = snd (SetView exampleGui ''a'' 0 0 20 10)"

definition guiAB :: Gui where
  "guiAB = snd (SetView guiA ''b'' 10 5 30 15)"

text \<open>The same Gui after \<^verbatim>\<open>SetCurrentView("b")\<close>.\<close>

definition guiFocusB :: Gui where
  "guiFocusB = snd (SetCurrentView guiAB ''b'')"

text \<open>
  An environment for the examples: the cursor setter stores the point it is given;
  handler 1 makes a view named \<open>h1\<close>, handler 2 a view named \<open>h2\<close> (so \<open>views\<close> records
  which handlers ran, and in which order), every other handler returns \<^verbatim>\<open>ErrQuit\<close>; the
  remaining callbacks do nothing.
\<close>

definition exampleEnv :: Env where
  "exampleEnv =
     \<lparr>View_SetCursor = (\<lambda>w x y. (None, w\<lparr>cx := x, cy := y\<rparr>)),
      handlers = (\<lambda>h g v.
         if h = 1 then (None, snd (SetView g ''h1'' 0 0 1 1))
         else if h = 2 then (None, snd (SetView g ''h2'' 0 0 1 1))
         else (Some ErrQuit, g)),
      editors = (\<lambda>e g v k c m. g),
      layouts = (\<lambda>m g. (None, g)),
      userFuncs = (\<lambda>f g. (None, g)),
      drawView = (\<lambda>g v. (None, g))\<rparr>"

text \<open>
  A key event for the rune \<open>q\<close> (113), and Guis with global bindings on that rune:
  one binding with the failing handler 3; two bindings with the handlers 1 and 2; three
  bindings with the handlers 1, 3 and 2.
\<close>

definition keyQ :: Event where
  "keyQ = \<lparr>Type = EventKey, Mod = 0, Key = 0, Ch = 113, Width = 0, Height = 0, Err = None,
           MouseX = 0, MouseY = 0\<rparr>"

definition guiQuit :: Gui where
  "guiQuit = snd (SetKeybinding guiAB [] (RuneArg 113) 0 (Some 3))"

definition guiTwo :: Gui where
  "guiTwo = snd (SetKeybinding (snd (SetKeybinding guiAB
               [] (RuneArg 113) 0 (Some 1))) [] (RuneArg 113) 0 (Some 2))"




definition click :: Event where
  "click = \<lparr>Type = EventMouse, Mod = 0, Key = 0, Ch = 0, Width = 0, Height = 0, Err = None,
            MouseX = 12, MouseY = 7\<rparr>"

section \<open>The lookup loop\<close>

lemma NewGui_example: "NewGui 0 None 0 (80, 24) = Inr exampleGui"
  by (simp add: NewGui_def exampleGui_def)

lemma rangeViews_Some:
  "rangeViews name vs = Some (pre, v, post) \<Longrightarrow>
     vs = pre @ v # post \<and> Name v = name \<and> (\<forall>w \<in> set pre. Name w \<noteq> name)"
  by (induction vs arbitrary: pre) (auto split: if_splits option.splits)

lemma rangeViews_None:
  "rangeViews name vs = None \<longleftrightarrow> (\<forall>w \<in> set vs. Name w \<noteq> name)"
  by (induction vs) (auto split: if_splits option.splits)

lemma rangeViews_first:
  "Name v = name \<Longrightarrow> \<forall>w \<in> set pre. Name w \<noteq> name \<Longrightarrow>
     rangeViews name (pre @ v # post) = Some (pre, v, post)"
  by (induction pre) auto

lemma View_by_name_Inr:
  "View_by_name g name = Inr v \<longleftrightarrow>
     (\<exists>pre post. views g = pre @ v # post \<and> Name v = name \<and> (\<forall>w \<in> set pre. Name w \<noteq> name))"
proof
  assume "View_by_name g name = Inr v"
  then obtain pre post where "rangeViews name (views g) = Some (pre, v, post)"
    by (auto simp: View_by_name_def split: option.splits)
  from rangeViews_Some [OF this] show
    "\<exists>pre post. views g = pre @ v # post \<and> Name v = name \<and> (\<forall>w \<in> set pre. Name w \<noteq> name)"
    by blast
next
  assume "\<exists>pre post. views g = pre @ v # post \<and> Name v = name \<and> (\<forall>w \<in> set pre. Name w \<noteq> name)"
  then obtain pre post where "views g = pre @ v # post" "Name v = name"
    "\<forall>w \<in> set pre. Name w \<noteq> name" by blast
  then show "View_by_name g name = Inr v"
    by (simp add: View_by_name_def rangeViews_first)
qed

lemma View_by_name_Inl:
  "View_by_name g name = Inl e \<longleftrightarrow> e = ErrUnknownView \<and> (\<forall>w \<in> set (views g). Name w \<noteq> name)"
  using rangeViews_None [of name "views g"]
  by (auto simp: View_by_name_def split: option.splits)

lemma guiA_fields:
  "views guiA = [viewA]" "nextPtr guiA = 1" "currentView guiA = None" "keybindings guiA = []"
  "store guiA 0 = \<lparr>bx0 = 0, by0 = 0, bx1 = 20, by1 = 10, cx = 0, cy = 0, tainted = False,
      bgColor = 0, fgColor = 0, selBgColor = 0, selFgColor = 0,
      editable = False, editor = None\<rparr>"
  by (simp_all add: guiA_def SetView_def View_by_name_def exampleGui_def viewA_def Let_def
      newView_def SetBgFgColor_def SetSelBgFgColor_def)

lemma guiAB_fields:
  "views guiAB = [viewA, viewB]" "nextPtr guiAB = 2" "currentView guiAB = None"
  "keybindings guiAB = []"
  "store guiAB 0 = store guiA 0"
  "store guiAB 1 = \<lparr>bx0 = 10, by0 = 5, bx1 = 30, by1 = 15, cx = 0, cy = 0, tainted = False,
      bgColor = 0, fgColor = 0, selBgColor = 0, selFgColor = 0,
      editable = False, editor = None\<rparr>"
  by (simp_all add: guiAB_def SetView_def View_by_name_def guiA_fields viewA_def viewB_def
      Name_def Let_def newView_def SetBgFgColor_def SetSelBgFgColor_def)
   (simp_all add: guiA_def SetView_def View_by_name_def exampleGui_def Let_def)

section \<open>SetView\<close>

text \<open>
  C4. \<^verbatim>\<open>SetView(name, x0, y0, x1, y1)\<close> fails with the error "invalid dimensions" when
  \<open>x0 \<ge> x1\<close> or \<open>y0 \<ge> y1\<close> and, the dimensions being valid, with the error "invalid name"
  when the name is empty, leaving the Gui as it was. If a view of that name exists, its
  bounds are updated in place, it is invalidated, and it is returned with no error;
  nothing else changes. Otherwise a new view object is made, seeded with the Gui's
  default and selection colours and with the given bounds, appended as the last (topmost)
  element of \<open>views\<close>, and returned together with \<open>ErrUnknownView\<close>.
\<close>

theorem SetView_contract:
  "(x0 \<ge> x1 \<or> y0 \<ge> y1 \<longrightarrow>
      SetView g name x0 y0 x1 y1 = ((None, Some (errors_New ''invalid dimensions'')), g))
   \<and> (x0 < x1 \<and> y0 < y1 \<and> name = [] \<longrightarrow>
      SetView g name x0 y0 x1 y1 = ((None, Some (errors_New ''invalid name'')), g))
   \<and> (x0 < x1 \<and> y0 < y1 \<and> name \<noteq> [] \<and> View_by_name g name = Inr v \<longrightarrow>
      SetView g name x0 y0 x1 y1 =
        ((Some v, None),
         g\<lparr>store := (store g)(ptr v :=
              (store g (ptr v))\<lparr>bx0 := x0, by0 := y0, bx1 := x1, by1 := y1,
                                tainted := True\<rparr>)\<rparr>))
   \<and> (x0 < x1 \<and> y0 < y1 \<and> name \<noteq> [] \<and> View_by_name g name = Inl e \<longrightarrow>
      (let v = \<lparr>ptr = nextPtr g, vname = name\<rparr>; g' = snd (SetView g name x0 y0 x1 y1)
       in fst (SetView g name x0 y0 x1 y1) = (Some v, Some ErrUnknownView)
          \<and> views g' = views g @ [v] \<and> last (views g') = v
          \<and> bgColor (deref g' v) = BgColor g \<and> fgColor (deref g' v) = FgColor g
          \<and> selBgColor (deref g' v) = SelBgColor g \<and> selFgColor (deref g' v) = SelFgColor g
          \<and> GetBounds (deref g' v) = (x0, y0, x1, y1)
          \<and> (\<forall>p. p \<noteq> ptr v \<longrightarrow> store g' p = store g p)
          \<and> currentView g' = currentView g \<and> keybindings g' = keybindings g))"
  by (simp add: SetView_def Let_def call_def deref_def SetBounds_def Invalidate_def
      SetBgFgColor_def SetSelBgFgColor_def newView_def GetBounds_def)

theorem SetView_contract_witness:
  "SetView exampleGui ''a'' 5 5 1 1 = ((None, Some (errors_New ''invalid dimensions'')), exampleGui)
   \<and> SetView exampleGui [] 0 0 10 5 = ((None, Some (errors_New ''invalid name'')), exampleGui)
   \<and> fst (SetView guiA ''a'' 5 5 20 10) = (Some viewA, None)
   \<and> views (snd (SetView guiA ''a'' 5 5 20 10)) = [viewA]
   \<and> GetBounds (deref (snd (SetView guiA ''a'' 5 5 20 10)) viewA) = (5, 5, 20, 10)
   \<and> tainted (deref (snd (SetView guiA ''a'' 5 5 20 10)) viewA)
   \<and> fst (SetView guiA ''b'' 10 5 30 15) = (Some viewB, Some ErrUnknownView)
   \<and> views (snd (SetView guiA ''b'' 10 5 30 15)) = [viewA, viewB]"
proof -
  have old: "View_by_name guiA ''a'' = Inr viewA"
    by (simp add: View_by_name_def guiA_fields viewA_def Name_def)
  have new: "View_by_name guiA ''b'' = Inl ErrUnknownView"
    by (simp add: View_by_name_def guiA_fields viewA_def Name_def)
  show ?thesis
    using SetView_contract [of 1 5 1 5 exampleGui "''a''" viewA ErrUnknownView]
      SetView_contract [of 10 0 5 0 exampleGui "[]" viewA ErrUnknownView]
      SetView_contract [of 20 5 10 5 guiA "''a''" viewA ErrUnknownView]
      SetView_contract [of 30 10 15 5 guiA "''b''" viewA ErrUnknownView]
      old new
    by (simp add: guiA_fields deref_def GetBounds_def viewA_def viewB_def Let_def)
qed

text \<open>
  C6. When a view named \<open>name\<close> is already in \<open>views\<close>, \<^verbatim>\<open>SetView\<close> with that name and
  valid bounds leaves \<open>views\<close>, and so its length, unchanged; for a non-empty name the
  existing view is returned with no error, holds the new bounds and is invalidated.
\<close>

theorem SetView_existing_name:
  assumes "\<exists>w \<in> set (views g). Name w = name" and "x0 < x1" and "y0 < y1"
  shows "length (views (snd (SetView g name x0 y0 x1 y1))) = length (views g)
         \<and> views (snd (SetView g name x0 y0 x1 y1)) = views g
         \<and> (name \<noteq> [] \<longrightarrow>
              (\<exists>v \<in> set (views g). Name v = name
                  \<and> fst (SetView g name x0 y0 x1 y1) = (Some v, None)
                  \<and> GetBounds (deref (snd (SetView g name x0 y0 x1 y1)) v) = (x0, y0, x1, y1)
                  \<and> tainted (deref (snd (SetView g name x0 y0 x1 y1)) v)))"
proof -
  from assms(1) obtain v where v: "View_by_name g name = Inr v"
    using View_by_name_Inl [of g name] by (cases "View_by_name g name") auto
  then have "v \<in> set (views g)" "Name v = name"
    using View_by_name_Inr [of g name v] by auto
  with v assms(2,3) show ?thesis
    by (simp add: SetView_def Let_def call_def deref_def SetBounds_def Invalidate_def
        GetBounds_def)
qed

theorem SetView_existing_name_witness:
  "(\<exists>w \<in> set (views guiAB). Name w = ''b'') \<and> (0::int) < 8 \<and> (1::int) < 9
   \<and> length (views guiAB) = 2
   \<and> length (views (snd (SetView guiAB ''b'' 0 1 8 9))) = 2
   \<and> fst (SetView guiAB ''b'' 0 1 8 9) = (Some viewB, None)
   \<and> GetBounds (deref (snd (SetView guiAB ''b'' 0 1 8 9)) viewB) = (0, 1, 8, 9)
   \<and> tainted (deref (snd (SetView guiAB ''b'' 0 1 8 9)) viewB)"
proof -
  have present: "\<exists>w \<in> set (views guiAB). Name w = ''b''"
    by (simp add: guiAB_fields viewA_def viewB_def Name_def)
  have run: "fst (SetView guiAB ''b'' 0 1 8 9) = (Some viewB, None)"
    by (simp add: SetView_def View_by_name_def guiAB_fields viewA_def viewB_def Name_def Let_def)
  from SetView_existing_name [OF present, of 0 8 1 9] present run show ?thesis
    by (auto simp: guiAB_fields)
qed

text \<open>
  C9. Whenever \<^verbatim>\<open>SetView\<close> returns the error "invalid dimensions" or the error
  "invalid name", the Gui after the call is the Gui before it (so \<open>views\<close>,
  \<open>currentView\<close>, \<open>keybindings\<close> and every view object are as before), no view is
  returned, and the arguments were indeed invalid.
\<close>

theorem SetView_error_keeps_state:
  assumes "SetView g name x0 y0 x1 y1 = ((r, Some e), g')"
    and "e = errors_New ''invalid dimensions'' \<or> e = errors_New ''invalid name''"
  shows "g' = g \<and> r = None \<and> views g' = views g \<and> currentView g' = currentView g
           \<and> keybindings g' = keybindings g \<and> store g' = store g
           \<and> (x0 \<ge> x1 \<or> y0 \<ge> y1 \<or> name = [])"
  using assms
  by (auto simp: SetView_def Let_def split: if_splits sum.splits)

theorem SetView_error_keeps_state_witness:
  "SetView guiAB ''a'' 5 5 1 1 = ((None, Some (errors_New ''invalid dimensions'')), guiAB)
   \<and> SetView guiAB [] 0 0 10 5 = ((None, Some (errors_New ''invalid name'')), guiAB)
   \<and> views guiAB = [viewA, viewB]"
proof -
  have dims: "SetView guiAB ''a'' 5 5 1 1
               = ((None, Some (errors_New ''invalid dimensions'')), guiAB)"
    by (simp add: SetView_def)
  have nm: "SetView guiAB [] 0 0 10 5 = ((None, Some (errors_New ''invalid name'')), guiAB)"
    by (simp add: SetView_def)
  from SetView_error_keeps_state [OF dims] SetView_error_keeps_state [OF nm] dims nm
  show ?thesis
    by (simp add: guiAB_fields)
qed

section \<open>ViewByPosition and the order of the views\<close>

lemma guiAB_store1:
  "store guiAB (Suc 0) = \<lparr>bx0 = 10, by0 = 5, bx1 = 30, by1 = 15, cx = 0, cy = 0,
      tainted = False, bgColor = 0, fgColor = 0, selBgColor = 0, selFgColor = 0,
      editable = False, editor = None\<rparr>"
  using guiAB_fields(6) by simp

lemma ViewByPosition_loop_Cons:
  "ViewByPosition_loop st (u # us) x y =
     (if strictly_inside (st (ptr u)) x y then Inr u else ViewByPosition_loop st us x y)"
  by (simp add: GetBounds_def strictly_inside_def)

lemma ViewByPosition_loop_Inr:
  "ViewByPosition_loop st vs x y = Inr v \<longleftrightarrow>
     (\<exists>pre post. vs = pre @ v # post \<and> strictly_inside (st (ptr v)) x y
        \<and> (\<forall>w \<in> set pre. \<not> strictly_inside (st (ptr w)) x y))"
proof (induction vs)
  case Nil
  then show ?case by simp
next
  case (Cons u us)
  show ?case
  proof (cases "strictly_inside (st (ptr u)) x y")
    case True
    then have run: "ViewByPosition_loop st (u # us) x y = Inr u"
      by (simp only: ViewByPosition_loop_Cons if_True)
    show ?thesis
    proof
      assume "ViewByPosition_loop st (u # us) x y = Inr v"
      with run have "v = u" by simp
      with True show "\<exists>pre post. u # us = pre @ v # post \<and> strictly_inside (st (ptr v)) x y
        \<and> (\<forall>w \<in> set pre. \<not> strictly_inside (st (ptr w)) x y)"
        by (intro exI [of _ "[]"] exI [of _ us]) simp
    next
      assume "\<exists>pre post. u # us = pre @ v # post \<and> strictly_inside (st (ptr v)) x y
        \<and> (\<forall>w \<in> set pre. \<not> strictly_inside (st (ptr w)) x y)"
      then obtain pre post where d: "u # us = pre @ v # post"
        and n: "\<forall>w \<in> set pre. \<not> strictly_inside (st (ptr w)) x y" by blast
      from d n True have "pre = []" by (cases pre) auto
      with d run show "ViewByPosition_loop st (u # us) x y = Inr v" by simp
    qed
  next
    case False
    then have run: "ViewByPosition_loop st (u # us) x y = ViewByPosition_loop st us x y"
      by (simp only: ViewByPosition_loop_Cons if_False)
    show ?thesis
    proof
      assume "ViewByPosition_loop st (u # us) x y = Inr v"
      with run Cons.IH obtain pre post where "us = pre @ v # post"
        "strictly_inside (st (ptr v)) x y" "\<forall>w \<in> set pre. \<not> strictly_inside (st (ptr w)) x y"
        by auto
      with False show "\<exists>pre post. u # us = pre @ v # post \<and> strictly_inside (st (ptr v)) x y
        \<and> (\<forall>w \<in> set pre. \<not> strictly_inside (st (ptr w)) x y)"
        by (intro exI [of _ "u # pre"] exI [of _ post]) simp
    next
      assume "\<exists>pre post. u # us = pre @ v # post \<and> strictly_inside (st (ptr v)) x y
        \<and> (\<forall>w \<in> set pre. \<not> strictly_inside (st (ptr w)) x y)"
      then obtain pre post where d: "u # us = pre @ v # post"
        and h: "strictly_inside (st (ptr v)) x y"
        and n: "\<forall>w \<in> set pre. \<not> strictly_inside (st (ptr w)) x y" by blast
      from d h False obtain pre' where "pre = u # pre'" by (cases pre) auto
      with d h n have "\<exists>pre post. us = pre @ v # post \<and> strictly_inside (st (ptr v)) x y
        \<and> (\<forall>w \<in> set pre. \<not> strictly_inside (st (ptr w)) x y)" by auto
      with Cons.IH run show "ViewByPosition_loop st (u # us) x y = Inr v" by simp
    qed
  qed
qed

lemma ViewByPosition_loop_Inl:
  "ViewByPosition_loop st vs x y = Inl e \<longleftrightarrow>
     e = ErrUnknownView \<and> (\<forall>w \<in> set vs. \<not> strictly_inside (st (ptr w)) x y)"
  by (induction vs) (auto simp: ViewByPosition_loop_Cons simp del: ViewByPosition_loop.simps(2))

lemma ViewByPosition_Inr:
  "ViewByPosition g x y = Inr v \<longleftrightarrow>
     (\<exists>below above. views g = below @ v # above \<and> strictly_inside (deref g v) x y
        \<and> (\<forall>w \<in> set above. \<not> strictly_inside (deref g w) x y))"
proof
  assume "ViewByPosition g x y = Inr v"
  then obtain pre post where d: "rev (views g) = pre @ v # post"
    and h: "strictly_inside (store g (ptr v)) x y"
    and n: "\<forall>w \<in> set pre. \<not> strictly_inside (store g (ptr w)) x y"
    unfolding ViewByPosition_def ViewByPosition_loop_Inr by blast
  from d have "views g = rev post @ v # rev pre"
    by (metis rev_append rev.simps(2) rev_rev_ident append_Cons append_Nil append_assoc)
  with h n show "\<exists>below above. views g = below @ v # above \<and> strictly_inside (deref g v) x y
        \<and> (\<forall>w \<in> set above. \<not> strictly_inside (deref g w) x y)"
    by (intro exI [of _ "rev post"] exI [of _ "rev pre"]) (simp add: deref_def)
next
  assume "\<exists>below above. views g = below @ v # above \<and> strictly_inside (deref g v) x y
        \<and> (\<forall>w \<in> set above. \<not> strictly_inside (deref g w) x y)"
  then obtain below above where d: "views g = below @ v # above"
    and h: "strictly_inside (deref g v) x y"
    and n: "\<forall>w \<in> set above. \<not> strictly_inside (deref g w) x y" by blast
  from d have "rev (views g) = rev above @ v # rev below" by simp
  with h n show "ViewByPosition g x y = Inr v"
    unfolding ViewByPosition_def ViewByPosition_loop_Inr
    by (intro exI [of _ "rev above"] exI [of _ "rev below"]) (simp add: deref_def)
qed

lemma ViewByPosition_Inl:
  "ViewByPosition g x y = Inl e \<longleftrightarrow>
     e = ErrUnknownView \<and> (\<forall>w \<in> set (views g). \<not> strictly_inside (deref g w) x y)"
  by (simp add: ViewByPosition_def ViewByPosition_loop_Inl deref_def)

lemma SetViewOnTop_Inr:
  "SetViewOnTop g name = (Inr v, g') \<Longrightarrow>
     Name v = name \<and> v \<in> set (views g) \<and> store g' = store g
     \<and> (\<exists>rest. views g' = rest @ [v] \<and> set rest \<subseteq> set (views g))"
  by (auto simp: SetViewOnTop_def split: option.splits dest!: rangeViews_Some)

text \<open>
  C7. \<^verbatim>\<open>ViewByPosition(x, y)\<close> returns the view \<open>v\<close> exactly when \<open>v\<close> is an element of
  \<open>views\<close> that strictly contains the point and no element after it (above it) does; it
  returns \<open>ErrUnknownView\<close> exactly when no view strictly contains the point. Containment
  is strict on all four edges of the bounds, so a point on a frame edge is not a hit.
  Consequently, after a successful \<^verbatim>\<open>SetViewOnTop(n)\<close> a point strictly inside the view
  named \<open>n\<close> resolves to that view, whatever other views contain it.
\<close>

theorem ViewByPosition_topmost:
  "(ViewByPosition g x y = Inr v \<longleftrightarrow>
      (\<exists>below above. views g = below @ v # above \<and> strictly_inside (deref g v) x y
         \<and> (\<forall>w \<in> set above. \<not> strictly_inside (deref g w) x y)))
   \<and> (ViewByPosition g x y = Inl e \<longleftrightarrow>
        e = ErrUnknownView \<and> (\<forall>w \<in> set (views g). \<not> strictly_inside (deref g w) x y))
   \<and> (strictly_inside (deref g v) x y \<longleftrightarrow>
        (case GetBounds (deref g v) of (x0, y0, x1, y1) \<Rightarrow> x0 < x \<and> x < x1 \<and> y0 < y \<and> y < y1))
   \<and> (SetViewOnTop g n = (Inr v, g') \<and> strictly_inside (deref g v) x y \<longrightarrow>
        Name v = n \<and> ViewByPosition g' x y = Inr v)"
proof -
  have top: "Name v = n \<and> ViewByPosition g' x y = Inr v"
    if "SetViewOnTop g n = (Inr v, g')" and h: "strictly_inside (deref g v) x y"
  proof -
    from SetViewOnTop_Inr [OF that(1)] obtain rest where
      "Name v = n" "store g' = store g" "views g' = rest @ [v]" by blast
    with h show ?thesis
      unfolding ViewByPosition_Inr
      by (intro conjI exI [of _ rest] exI [of _ "[]"]) (simp_all add: deref_def)
  qed
  show ?thesis
    using ViewByPosition_Inr [of g x y v] ViewByPosition_Inl [of g x y e] top
    by (simp add: strictly_inside_def GetBounds_def)
qed

theorem ViewByPosition_topmost_witness:
  "ViewByPosition guiAB 12 7 = Inr viewB
   \<and> ViewByPosition guiAB 10 7 = Inr viewA
   \<and> ViewByPosition guiAB 40 40 = Inl ErrUnknownView
   \<and> SetViewOnTop guiAB ''a'' = (Inr viewA, guiAB\<lparr>views := [viewB, viewA]\<rparr>)
   \<and> strictly_inside (deref guiAB viewA) 12 7 \<and> strictly_inside (deref guiAB viewB) 12 7
   \<and> ViewByPosition (guiAB\<lparr>views := [viewB, viewA]\<rparr>) 12 7 = Inr viewA"
proof -
  have top: "SetViewOnTop guiAB ''a'' = (Inr viewA, guiAB\<lparr>views := [viewB, viewA]\<rparr>)"
    by (simp add: SetViewOnTop_def guiAB_fields viewA_def viewB_def Name_def)
  have inA: "strictly_inside (deref guiAB viewA) 12 7"
    by (simp add: strictly_inside_def deref_def guiAB_fields guiA_fields viewA_def)
  have inB: "strictly_inside (deref guiAB viewB) 12 7"
    by (simp add: strictly_inside_def deref_def guiAB_store1 viewB_def)
  have edgeB: "\<not> strictly_inside (deref guiAB viewB) 10 7"
    by (simp add: strictly_inside_def deref_def guiAB_store1 viewB_def)
  have inA': "strictly_inside (deref guiAB viewA) 10 7"
    by (simp add: strictly_inside_def deref_def guiAB_fields guiA_fields viewA_def)
  have out: "\<forall>w \<in> set (views guiAB). \<not> strictly_inside (deref guiAB w) 40 40"
    by (simp add: strictly_inside_def deref_def guiAB_fields guiAB_store1 guiA_fields
        viewA_def viewB_def)
  have b: "\<exists>below above. views guiAB = below @ viewB # above
             \<and> strictly_inside (deref guiAB viewB) 12 7
             \<and> (\<forall>w \<in> set above. \<not> strictly_inside (deref guiAB w) 12 7)"
    using inB by (intro exI [of _ "[viewA]"] exI [of _ "[]"]) (simp add: guiAB_fields)
  have a: "\<exists>below above. views guiAB = below @ viewA # above
             \<and> strictly_inside (deref guiAB viewA) 10 7
             \<and> (\<forall>w \<in> set above. \<not> strictly_inside (deref guiAB w) 10 7)"
    using inA' edgeB by (intro exI [of _ "[]"] exI [of _ "[viewB]"]) (simp add: guiAB_fields)
  show ?thesis
    using ViewByPosition_topmost [of guiAB 12 7 viewB ErrUnknownView "''a''" guiAB]
      ViewByPosition_topmost [of guiAB 10 7 viewA ErrUnknownView "''a''" guiAB]
      ViewByPosition_topmost [of guiAB 40 40 viewA ErrUnknownView "''a''" guiAB]
      ViewByPosition_topmost [of guiAB 12 7 viewA ErrUnknownView "''a''"
        "guiAB\<lparr>views := [viewB, viewA]\<rparr>"]
      top inA inB a b out
    by simp
qed

section \<open>DeleteView and the focus\<close>

lemma DeleteView_None:
  "DeleteView g name = (None, g') \<Longrightarrow>
     \<exists>pre w post. views g = pre @ w # post \<and> Name w = name
        \<and> (\<forall>u \<in> set pre. Name u \<noteq> name) \<and> g' = g\<lparr>views := pre @ post\<rparr>"
  by (auto simp: DeleteView_def split: option.splits dest!: rangeViews_Some)

lemma DeleteView_Some:
  "DeleteView g name = (Some e, g') \<Longrightarrow>
     e = ErrUnknownView \<and> g' = g \<and> (\<forall>u \<in> set (views g). Name u \<noteq> name)"
  using rangeViews_None [of name "views g"]
  by (auto simp: DeleteView_def split: option.splits)

lemma unique_names_NewGui: "NewGui c None mode sz = Inr g \<Longrightarrow> unique_names g"
  by (auto simp: NewGui_def unique_names_def)

lemma unique_names_SetView: "unique_names g \<Longrightarrow> unique_names (snd (SetView g name x0 y0 x1 y1))"
  by (auto simp: SetView_def unique_names_def Let_def call_def View_by_name_Inl Name_def
      split: sum.splits)

lemma unique_names_DeleteView: "unique_names g \<Longrightarrow> unique_names (snd (DeleteView g name))"
  by (auto simp: DeleteView_def unique_names_def split: option.splits dest!: rangeViews_Some)
    blast

lemma unique_names_SetViewOnTop: "unique_names g \<Longrightarrow> unique_names (snd (SetViewOnTop g name))"
  by (auto simp: SetViewOnTop_def unique_names_def split: option.splits dest!: rangeViews_Some)
    blast

lemma unique_names_SetViewOnBottom:
  "unique_names g \<Longrightarrow> unique_names (snd (SetViewOnBottom g name))"
  by (auto simp: SetViewOnBottom_def unique_names_def split: option.splits
      dest!: rangeViews_Some) blast

lemma unique_names_SetCurrentView:
  "unique_names g \<Longrightarrow> unique_names (snd (SetCurrentView g name))"
  by (auto simp: SetCurrentView_def unique_names_def split: option.splits)

lemma unique_names_SetManager: "unique_names (SetManager g ms)"
  by (simp add: SetManager_def unique_names_def)

lemma guiFocusB_fields:
  "views guiFocusB = [viewA, viewB]" "currentView guiFocusB = Some viewB"
  by (simp_all add: guiFocusB_def SetCurrentView_def guiAB_fields viewA_def viewB_def Name_def)

text \<open>
  C10. A successful \<^verbatim>\<open>DeleteView(name)\<close> removes the first view of that name from
  \<open>views\<close> and nothing else, and it never touches \<open>currentView\<close> or a view object. So in
  a Gui with unique view names whose focused view is named \<open>name\<close>, \<^verbatim>\<open>CurrentView()\<close>
  after the call still returns that view, with its contents, although it is no longer an
  element of \<open>views\<close>.
\<close>

theorem DeleteView_keeps_currentView:
  assumes ok: "DeleteView g name = (None, g')"
  shows "CurrentView g' = CurrentView g \<and> store g' = store g
         \<and> (\<exists>pre w post. views g = pre @ w # post \<and> Name w = name
               \<and> (\<forall>u \<in> set pre. Name u \<noteq> name) \<and> views g' = pre @ post)
         \<and> (\<forall>v. unique_names g \<and> currentView g = Some v \<and> Name v = name \<longrightarrow>
               CurrentView g' = Some v \<and> deref g' v = deref g v \<and> v \<notin> set (views g'))"
proof -
  from DeleteView_None [OF ok] obtain pre w post where
    d: "views g = pre @ w # post" and w: "Name w = name"
    and g': "g' = g\<lparr>views := pre @ post\<rparr>" and p: "\<forall>u \<in> set pre. Name u \<noteq> name" by blast
  have gone: "v \<notin> set (views g')" if "unique_names g" and "Name v = name" for v
  proof
    assume "v \<in> set (views g')"
    with g' have "Name v \<in> set (map Name (pre @ post))" by auto
    moreover from that(1) d have "Name w \<notin> set (map Name (pre @ post))"
      by (auto simp: unique_names_def)
    ultimately show False using w that(2) by simp
  qed
  have "\<exists>pre w post. views g = pre @ w # post \<and> Name w = name
               \<and> (\<forall>u \<in> set pre. Name u \<noteq> name) \<and> views g' = pre @ post"
    using d w p g' by (intro exI [of _ pre] exI [of _ w] exI [of _ post]) simp
  with g' gone show ?thesis
    by (simp add: CurrentView_def deref_def)
qed

theorem DeleteView_keeps_currentView_witness:
  "DeleteView guiFocusB ''b'' = (None, guiFocusB\<lparr>views := [viewA]\<rparr>)
   \<and> unique_names guiFocusB \<and> currentView guiFocusB = Some viewB \<and> Name viewB = ''b''
   \<and> CurrentView (guiFocusB\<lparr>views := [viewA]\<rparr>) = Some viewB
   \<and> viewB \<notin> set (views (guiFocusB\<lparr>views := [viewA]\<rparr>))"
proof -
  have run: "DeleteView guiFocusB ''b'' = (None, guiFocusB\<lparr>views := [viewA]\<rparr>)"
    by (simp add: DeleteView_def guiFocusB_fields viewA_def viewB_def Name_def)
  have inv: "unique_names guiFocusB"
    by (simp add: unique_names_def guiFocusB_fields viewA_def viewB_def Name_def)
  have nm: "Name viewB = ''b''"
    by (simp add: viewB_def Name_def)
  from DeleteView_keeps_currentView [OF run] run inv nm show ?thesis
    by (simp add: guiFocusB_fields CurrentView_def)
qed

section \<open>SetManager\<close>



section \<open>Properties of keybinding dispatch\<close>

lemma matches_iff:
  "matches kb v ev \<longleftrightarrow> matchKeypress kb (Key ev) (Ch ev) (Mod ev) \<and> matchView kb v"
  by (auto simp: matches_def matchKeypress_def matchView_def split: option.splits)

lemma execKeybindings_loop_Cons:
  "execKeybindings_loop env (kb # kbs) v ev matched g =
     (case (if matches kb v ev then handler kb else None) of
        None \<Rightarrow> execKeybindings_loop env kbs v ev matched g
      | Some h \<Rightarrow>
          (case handlers env h g v of
             (Some err, g') \<Rightarrow> ((False, Some err), g')
           | (None, g') \<Rightarrow> execKeybindings_loop env kbs v ev True g'))"
  by (simp add: matches_iff split: option.splits)

lemma execKeybindings_loop_run:
  "execKeybindings_loop env kbs v ev matched g =
     (case run_handlers env
             (List.map_filter (\<lambda>kb. if matches kb v ev then handler kb else None) kbs) v g of
        (Some err, g') \<Rightarrow> ((False, Some err), g')
      | (None, g') \<Rightarrow>
          ((matched \<or> List.map_filter (\<lambda>kb. if matches kb v ev then handler kb else None) kbs \<noteq> [],
            None), g'))"
proof (induction kbs arbitrary: matched g)
  case Nil
  show ?case by (simp add: map_filter_simps)
next
  case (Cons kb kbs)
  let ?f = "\<lambda>kb. if matches kb v ev then handler kb else None"
  show ?case
  proof (cases "?f kb")
    case None
    then have mf: "List.map_filter ?f (kb # kbs) = List.map_filter ?f kbs"
      by (simp add: map_filter_simps)
    from None have step: "execKeybindings_loop env (kb # kbs) v ev matched g
        = execKeybindings_loop env kbs v ev matched g"
      by (simp only: execKeybindings_loop_Cons option.case)
    show ?thesis
      unfolding mf step by (rule Cons.IH)
  next
    case (Some h)
    then have mf: "List.map_filter ?f (kb # kbs) = h # List.map_filter ?f kbs"
      by (simp add: map_filter_simps)
    from Some have step: "execKeybindings_loop env (kb # kbs) v ev matched g
        = (case handlers env h g v of
             (Some err, g') \<Rightarrow> ((False, Some err), g')
           | (None, g') \<Rightarrow> execKeybindings_loop env kbs v ev True g')"
      by (simp only: execKeybindings_loop_Cons option.case)
    obtain r g1 where h: "handlers env h g v = (r, g1)" by (cases "handlers env h g v")
    show ?thesis
    proof (cases r)
      case None
      with h step have a: "execKeybindings_loop env (kb # kbs) v ev matched g
          = execKeybindings_loop env kbs v ev True g1" by simp
      from None h have b: "run_handlers env (h # List.map_filter ?f kbs) v g
          = run_handlers env (List.map_filter ?f kbs) v g1" by simp
      show ?thesis
        unfolding mf a b Cons.IH [of True g1]
        by (simp split: prod.splits option.splits)
    next
      case (Some err)
      with h step have a: "execKeybindings_loop env (kb # kbs) v ev matched g
          = ((False, Some err), g1)" by simp
      from Some h have b: "run_handlers env (h # List.map_filter ?f kbs) v g
          = (Some err, g1)" by simp
      show ?thesis
        unfolding mf a b by simp
    qed
  qed
qed


lemma matching_handlers_nonempty:
  "matching_handlers g v ev \<noteq> [] \<longleftrightarrow>
     (\<exists>kb \<in> set (keybindings g). handler kb \<noteq> None \<and> matches kb v ev)"
  by (auto simp: matching_handlers_def map_filter_def filter_empty_conv)





lemma keyQ_fields: "Key keyQ = 0" "Ch keyQ = 113" "Mod keyQ = 0" "Type keyQ = EventKey"
  by (simp_all add: keyQ_def)

lemma guiTwo_fields:
  "keybindings guiTwo =
     [\<lparr>viewName = [], key = 0, ch = 113, modifier = 0, handler = Some 1\<rparr>,
      \<lparr>viewName = [], key = 0, ch = 113, modifier = 0, handler = Some 2\<rparr>]"
  "views guiTwo = [viewA, viewB]" "nextPtr guiTwo = 2" "currentView guiTwo = None"
  by (simp_all add: guiTwo_def SetKeybinding_def getKey_def newKeybinding_def guiAB_fields)


lemma guiQuit_fields:
  "keybindings guiQuit =
     [\<lparr>viewName = [], key = 0, ch = 113, modifier = 0, handler = Some 3\<rparr>]"
  "views guiQuit = [viewA, viewB]" "nextPtr guiQuit = 2" "currentView guiQuit = None"
  by (simp_all add: guiQuit_def SetKeybinding_def getKey_def newKeybinding_def guiAB_fields)

lemma exampleEnv_handlers:
  "handlers exampleEnv (Suc 0) g v = (None, snd (SetView g ''h1'' 0 0 1 1))"
  "handlers exampleEnv 2 g v = (None, snd (SetView g ''h2'' 0 0 1 1))"
  "handlers exampleEnv 3 g v = (Some ErrQuit, g)"
  by (simp_all add: exampleEnv_def)



text \<open>
  C2 (as the code has it). \<^verbatim>\<open>execKeybindings\<close> reports \<open>matched = true\<close> exactly when
  it returns no error and at least one registered keybinding with a handler matched the
  event's (key-or-rune, modifier) and the view's scope. When a handler returns an error
  the report is \<open>false\<close>, as the comment on the function says ("true if there is a match
  and no errors").
\<close>

theorem execKeybindings_matched:
  "fst (fst (execKeybindings env g v ev)) \<longleftrightarrow>
     snd (fst (execKeybindings env g v ev)) = None
     \<and> (\<exists>kb \<in> set (keybindings g). handler kb \<noteq> None
           \<and> matchKeypress kb (Key ev) (Ch ev) (Mod ev) \<and> matchView kb v)"
  using matching_handlers_nonempty [of g v ev]
  by (simp add: execKeybindings_def execKeybindings_loop_run [of env "keybindings g" v ev False g]
      matching_handlers_def matches_iff split: prod.splits option.splits)

text \<open>
  The claim as first stated, that \<open>matched\<close> is independent of a handler's failure, does
  not hold: with one global binding on \<open>q\<close> whose handler returns \<^verbatim>\<open>ErrQuit\<close>, the binding
  matches the key event for \<open>q\<close> and the dispatch reports \<open>false\<close>.
\<close>

theorem execKeybindings_matched_counterexample:
  "keybindings guiQuit = [\<lparr>viewName = [], key = 0, ch = 113, modifier = 0, handler = Some 3\<rparr>]
   \<and> matchKeypress \<lparr>viewName = [], key = 0, ch = 113, modifier = 0, handler = Some 3\<rparr>
        (Key keyQ) (Ch keyQ) (Mod keyQ)
   \<and> matchView \<lparr>viewName = [], key = 0, ch = 113, modifier = 0, handler = Some 3\<rparr>
        (currentView guiQuit)
   \<and> execKeybindings exampleEnv guiQuit (currentView guiQuit) keyQ
       = ((False, Some ErrQuit), guiQuit)"
  by (simp add: guiQuit_fields matchKeypress_def matchView_def keyQ_fields execKeybindings_def
      exampleEnv_handlers)

theorem execKeybindings_matched_witness:
  "fst (fst (execKeybindings exampleEnv guiTwo None keyQ))
   \<and> snd (fst (execKeybindings exampleEnv guiTwo None keyQ)) = None
   \<and> \<not> fst (fst (execKeybindings exampleEnv guiQuit None keyQ))
   \<and> snd (fst (execKeybindings exampleEnv guiQuit None keyQ)) = Some ErrQuit
   \<and> \<not> fst (fst (execKeybindings exampleEnv guiAB None keyQ))
   \<and> snd (fst (execKeybindings exampleEnv guiAB None keyQ)) = None"
proof -
  have e2: "snd (fst (execKeybindings exampleEnv guiTwo None keyQ)) = None"
    by (simp add: execKeybindings_def guiTwo_fields matchKeypress_def matchView_def keyQ_fields
        exampleEnv_handlers)
  have eq: "snd (fst (execKeybindings exampleEnv guiQuit None keyQ)) = Some ErrQuit"
    by (simp add: execKeybindings_def guiQuit_fields matchKeypress_def matchView_def keyQ_fields
        exampleEnv_handlers)
  have e0: "snd (fst (execKeybindings exampleEnv guiAB None keyQ)) = None"
    by (simp add: execKeybindings_def guiAB_fields)
  show ?thesis
    using execKeybindings_matched [of exampleEnv guiTwo None keyQ]
      execKeybindings_matched [of exampleEnv guiQuit None keyQ]
      execKeybindings_matched [of exampleEnv guiAB None keyQ] e2 eq e0
    by (simp add: guiTwo_fields guiAB_fields matchKeypress_def matchView_def keyQ_fields)
qed

section \<open>Mouse events\<close>

lemma onKey_mouse_hit:
  assumes "Type ev = EventMouse" and "ViewByPosition g (MouseX ev) (MouseY ev) = Inr v"
  shows "onKey env g ev =
     (case View_SetCursor env (deref g v)
             (int_sub (int_sub (MouseX ev) (bx0 (deref g v))) 1)
             (int_sub (int_sub (MouseY ev) (bx1 (deref g v))) 1) of
        (Some err, w) \<Rightarrow> (Some err, call g v (\<lambda>_. w))
      | (None, w) \<Rightarrow>
          (case execKeybindings env (call g v (\<lambda>_. w)) (Some v) ev of
             ((_, Some err), g') \<Rightarrow> (Some err, g')
           | ((_, None), g') \<Rightarrow> (None, g')))"
  using assms by (simp add: onKey_def GetBounds_def Let_def)

lemma click_fields: "Type click = EventMouse" "MouseX click = 12" "MouseY click = 7"
  by (simp_all add: click_def)

lemma ViewByPosition_guiAB_click: "ViewByPosition guiAB 12 7 = Inr viewB"
  by (simp add: ViewByPosition_def guiAB_fields guiAB_store1 viewB_def GetBounds_def)

text \<open>
  C1. The scenario of the spec: the click at (12, 7) hits the view \<open>b\<close> with bounds
  (10, 5, 30, 15). The claim asks for the cursor (12 - 10 - 1, 7 - 5 - 1) = (1, 1).
  \<^verbatim>\<open>onKey\<close> calls the cursor setter of that view with (1, -24): the column is right, the
  row is 7 - 30 - 1, computed from \<open>x1\<close>, the third result of \<^verbatim>\<open>GetBounds()\<close>, instead of
  \<open>y0\<close>. Whatever the setter does with that point (refuse it or store it), the dispatch
  that follows is scoped to \<open>b\<close>; there is no binding in this Gui, so it changes nothing.
\<close>

theorem onKey_click_cursor_row:
  "ViewByPosition guiAB (MouseX click) (MouseY click) = Inr viewB
   \<and> GetBounds (deref guiAB viewB) = (10, 5, 30, 15)
   \<and> onKey env guiAB click =
       (case View_SetCursor env (deref guiAB viewB) 1 (- 24) of
          (Some err, w) \<Rightarrow> (Some err, call guiAB viewB (\<lambda>_. w))
        | (None, w) \<Rightarrow> (None, call guiAB viewB (\<lambda>_. w)))"
proof -
  have hit: "ViewByPosition guiAB (MouseX click) (MouseY click) = Inr viewB"
    by (simp add: click_fields ViewByPosition_guiAB_click)
  have b: "GetBounds (deref guiAB viewB) = (10, 5, 30, 15)"
    by (simp add: GetBounds_def deref_def viewB_def guiAB_store1)
  have kb: "execKeybindings env (call guiAB viewB (\<lambda>_. w)) (Some viewB) click
              = ((False, None), call guiAB viewB (\<lambda>_. w))" for w
    by (simp add: execKeybindings_def call_def guiAB_fields)
  have args: "int_sub (int_sub (MouseX click) (bx0 (deref guiAB viewB))) 1 = 1"
    "int_sub (int_sub (MouseY click) (bx1 (deref guiAB viewB))) 1 = - 24"
    using b by (simp_all add: GetBounds_def click_fields int_sub_def)
  show ?thesis
    unfolding onKey_mouse_hit [OF click_fields(1) hit] args kb
    using hit b by (simp split: prod.splits option.splits)
qed

text \<open>With the example cursor setter, which stores the point it is given, the click
  leaves the cursor of \<open>b\<close> at (1, -24).\<close>

theorem onKey_click_cursor_row_witness:
  "fst (onKey exampleEnv guiAB click) = None
   \<and> cx (deref (snd (onKey exampleEnv guiAB click)) viewB) = 1
   \<and> cy (deref (snd (onKey exampleEnv guiAB click)) viewB) = - 24"
  using onKey_click_cursor_row [of exampleEnv]
  by (simp add: exampleEnv_def call_def deref_def)

section \<open>Resize and error events\<close>







end
